theory Spec2Isabelle
  imports Complex_Main "HOL-Library.Multiset" "HOL-Library.List_Lexorder" "HOL-Library.Char_ord"
begin

section \<open>Content features (precompute\_data.py, lines 74--101)\<close>

text \<open>
  One row of the movie table, restricted to the columns that
  \<^verbatim>\<open>create_content_features\<close> reads.  A cell that pandas reports as missing
  (\<^verbatim>\<open>pd.notna(...)\<close> is false) is \<open>None\<close>.  The text columns hold the value
  already rendered by \<^verbatim>\<open>str\<close>; the two numeric columns that are compared with
  thresholds hold the number.
\<close>

record row =
  directors :: "string option"
  writers :: "string option"
  genres :: "string option"
  startYear :: "string option"
  tags :: "string option"
  runtimeMinutes :: "real option"
  averageRating :: "real option"

text \<open>\<^verbatim>\<open>str(row[c]) if pd.notna(row[c]) else ""\<close>\<close>

definition str_or_empty :: "string option \<Rightarrow> string" where
  "str_or_empty c = (case c of Some s \<Rightarrow> s | None \<Rightarrow> '''')"

text \<open>Lines 81--89: the runtime bucket.\<close>

definition runtime_bucket :: "real option \<Rightarrow> string" where
  "runtime_bucket c =
     (case c of
        Some m \<Rightarrow>
          (if m > 120 then ''long''
           else if m > 90 then ''medium''
           else ''short'')
      | None \<Rightarrow> '''')"

text \<open>Lines 91--99: the rating bucket.\<close>

definition rating_bucket :: "real option \<Rightarrow> string" where
  "rating_bucket c =
     (case c of
        Some a \<Rightarrow>
          (if a \<ge> 7.5 then ''highly_rated''
           else if a \<ge> 6.5 then ''moderately_rated''
           else ''average_rated'')
      | None \<Rightarrow> '''')"

text \<open>Line 101: the f-string joining the seven parts with single blanks.\<close>

definition create_content_features :: "row \<Rightarrow> string" where
  "create_content_features r =
     (let directors' = str_or_empty (directors r);
          writers' = str_or_empty (writers r);
          genres' = str_or_empty (genres r);
          year = str_or_empty (startYear r);
          tags' = str_or_empty (tags r);
          runtime = runtime_bucket (runtimeMinutes r);
          rating = rating_bucket (averageRating r)
      in genres' @ '' '' @ directors' @ '' '' @ writers' @ '' '' @ year @ '' '' @
         runtime @ '' '' @ rating @ '' '' @ tags')"

section \<open>Errors\<close>

text \<open>
  The exceptions that can end the computation: \<open>ValueError\<close> is raised by
  \<^verbatim>\<open>np.argpartition\<close> for a \<^verbatim>\<open>kth\<close> out of bounds and by \<^verbatim>\<open>range\<close> for a zero step,
  \<open>IndexError\<close> by an index out of range; \<open>EmptyCorpus\<close> and \<open>DegenerateVocabulary\<close>
  are the two failures of the vectorizer.
\<close>

datatype error = ValueError | IndexError | EmptyCorpus | DegenerateVocabulary

section \<open>Rounding (line 152)\<close>

text \<open>
  \<^verbatim>\<open>round(x, ndigits)\<close> rounds to the nearest multiple of \<open>10\<^sup>-\<^sup>n\<close>, a tie going to
  the even multiple.  Scores are modelled as real numbers.
\<close>

definition round_half_even :: "real \<Rightarrow> int" where
  "round_half_even x =
     (let f = \<lfloor>x\<rfloor>; d = x - of_int f
      in if d < 1 / 2 then f
         else if 1 / 2 < d then f + 1
         else if even f then f else f + 1)"

definition py_round :: "real \<Rightarrow> nat \<Rightarrow> real" where
  "py_round x ndigits = of_int (round_half_even (x * 10 ^ ndigits)) / 10 ^ ndigits"

section \<open>The two numpy routines (lines 148 and 151)\<close>

text \<open>
  \<^verbatim>\<open>np.argpartition\<close> and \<^verbatim>\<open>np.argsort\<close> are library routines; the program is
  modelled over any pair of functions that meets their documented contracts.
\<close>

record numpy =
  argpartition :: "real list \<Rightarrow> int \<Rightarrow> error + nat list"
  argsort :: "real list \<Rightarrow> nat list"

text \<open>
  \<^verbatim>\<open>np.argpartition(a, kth)\<close>: a negative \<open>kth\<close> counts from the end; on a non-empty
  array a \<open>kth\<close> outside the array raises \<open>ValueError\<close>; otherwise the result is a
  permutation \<open>p\<close> of the indices such that the element at position \<open>kth\<close> is where it
  would be in sorted order, no element before it is larger and no element after it is
  smaller.  The order inside the two parts is left open.
\<close>

definition argpartition_ok :: "(real list \<Rightarrow> int \<Rightarrow> error + nat list) \<Rightarrow> bool" where
  "argpartition_ok ap \<longleftrightarrow>
     (\<forall>a kth.
        let n = length a; k = (if kth < 0 then kth + int n else kth)
        in if n \<noteq> 0 \<and> (k < 0 \<or> int n \<le> k) then ap a kth = Inl ValueError
           else (\<exists>p. ap a kth = Inr p \<and> mset p = mset [0..<n] \<and>
                   (\<forall>j<n. (int j < k \<longrightarrow> a ! (p ! j) \<le> a ! (p ! nat k)) \<and>
                          (k < int j \<longrightarrow> a ! (p ! nat k) \<le> a ! (p ! j)))))"

text \<open>
  \<^verbatim>\<open>np.argsort(a)\<close>: a permutation of the indices that lists the elements in ascending
  order.  The default sort is not stable, so the order of equal elements is left open.
\<close>

definition argsort_ok :: "(real list \<Rightarrow> nat list) \<Rightarrow> bool" where
  "argsort_ok srt \<longleftrightarrow>
     (\<forall>a. mset (srt a) = mset [0..<length a] \<and> sorted (map (\<lambda>j. a ! j) (srt a)))"

definition numpy_ok :: "numpy \<Rightarrow> bool" where
  "numpy_ok np \<longleftrightarrow> argpartition_ok (argpartition np) \<and> argsort_ok (argsort np)"

text \<open>
  One pair of routines that meets the contracts: both sort the indices by insertion
  sort on the elements (a sorted array is partitioned at every position).
\<close>

definition argsort_ref :: "real list \<Rightarrow> nat list" where
  "argsort_ref a = sort_key (\<lambda>j. a ! j) [0..<length a]"

definition argpartition_ref :: "real list \<Rightarrow> int \<Rightarrow> error + nat list" where
  "argpartition_ref a kth =
     (let n = length a; k = (if kth < 0 then kth + int n else kth)
      in if n \<noteq> 0 \<and> (k < 0 \<or> int n \<le> k) then Inl ValueError
         else Inr (argsort_ref a))"

definition numpy_ref :: numpy where
  "numpy_ref = \<lparr>argpartition = argpartition_ref, argsort = argsort_ref\<rparr>"

section \<open>Top-N selection for one row (lines 146--153)\<close>

text \<open>\<^verbatim>\<open>a[idx]\<close> with an index array: every index has to be in range.\<close>

definition np_take :: "'a list \<Rightarrow> nat list \<Rightarrow> error + 'a list" where
  "np_take a idx =
     (if list_all (\<lambda>j. j < length a) idx then Inr (map (\<lambda>j. a ! j) idx)
      else Inl IndexError)"

text \<open>
  The body of the inner loop for one row \<open>scores\<close> of the similarity block and the
  row's own index \<open>global_i\<close>; \<open>K\<close> is \<^verbatim>\<open>TOP_N_SIMILAR\<close>.  The slice
  \<^verbatim>\<open>[-(K + 1):]\<close> keeps the last \<open>K + 1\<close> elements, or all of them when there are fewer.
  In the last line \<^verbatim>\<open>scores[idx]\<close> reads an index that the first \<open>np_take\<close> has
  already found in range.
\<close>

definition top_similar :: "numpy \<Rightarrow> nat \<Rightarrow> real list \<Rightarrow> nat \<Rightarrow> error + (nat \<times> real) list" where
  "top_similar np K scores global_i =
     (case argpartition np scores (- int K - 1) of
        Inl e \<Rightarrow> Inl e
      | Inr part \<Rightarrow>
          (let top_indices = drop (length part - (K + 1)) part;
               top_indices = filter (\<lambda>j. j \<noteq> global_i) top_indices
           in case np_take scores top_indices of
                Inl e \<Rightarrow> Inl e
              | Inr cand_scores \<Rightarrow>
                  (case np_take top_indices (rev (argsort np cand_scores)) of
                     Inl e \<Rightarrow> Inl e
                   | Inr by_score \<Rightarrow>
                       (let top_indices = take K by_score
                        in Inr (map (\<lambda>idx. (idx, py_round (scores ! idx) 4)) top_indices)))))"

definition TOP_N_SIMILAR :: nat where
  "TOP_N_SIMILAR = 50"

section \<open>Cosine similarity of row blocks (line 142)\<close>

text \<open>
  Modelled from the spec: \<^verbatim>\<open>cosine_similarity\<close> is library code, absent from the
  repository.  \<^verbatim>\<open>cosine_similarity(X, Y)\<close> scales every row of both matrices to length 1,
  leaving a zero row as it is, and returns all dot products (for rows that are already
  normalized, the plain dot products).  A matrix is the list of its rows; scores are
  real numbers.
\<close>

definition dot :: "real list \<Rightarrow> real list \<Rightarrow> real" where
  "dot u v = (\<Sum>(a, b)\<leftarrow>zip u v. a * b)"

definition l2_norm :: "real list \<Rightarrow> real" where
  "l2_norm u = sqrt (\<Sum>a\<leftarrow>u. a\<^sup>2)"

definition normalize_row :: "real list \<Rightarrow> real list" where
  "normalize_row u = (let n = l2_norm u in if n = 0 then u else map (\<lambda>a. a / n) u)"

definition cosine_similarity :: "real list list \<Rightarrow> real list list \<Rightarrow> real list list" where
  "cosine_similarity X Y =
     map (\<lambda>x. map (\<lambda>y. dot (normalize_row x) (normalize_row y)) Y) X"

section \<open>The batched loop (lines 134--155)\<close>

text \<open>
  The table \<^verbatim>\<open>similarity_data\<close> starts as \<^verbatim>\<open>[None] * num_movies\<close>.  The inner loop
  runs over \<^verbatim>\<open>range(batch_end - batch_start)\<close> and stores each row's list under its
  global index; an exception ends the run.
\<close>

type_synonym table = "(nat \<times> real) list option list"

fun batch_rows :: "numpy \<Rightarrow> nat \<Rightarrow> real list list \<Rightarrow> nat \<Rightarrow> nat list \<Rightarrow> table \<Rightarrow> error + table" where
  "batch_rows np K batch_sim batch_start [] similarity_data = Inr similarity_data"
| "batch_rows np K batch_sim batch_start (local_i # rest) similarity_data =
     (let global_i = batch_start + local_i;
          scores = batch_sim ! local_i
      in case top_similar np K scores global_i of
           Inl e \<Rightarrow> Inl e
         | Inr top_sim \<Rightarrow>
             batch_rows np K batch_sim batch_start rest (similarity_data[global_i := Some top_sim]))"

text \<open>
  The outer loop over \<^verbatim>\<open>range(0, num_movies, BATCH_SIZE)\<close>; a zero step makes
  \<^verbatim>\<open>range\<close> raise \<open>ValueError\<close>.  The slice \<^verbatim>\<open>tfidf_matrix[batch_start:batch_end]\<close>
  is the block of rows handed to \<open>cosine_similarity\<close>.
\<close>

function batches :: "numpy \<Rightarrow> nat \<Rightarrow> nat \<Rightarrow> real list list \<Rightarrow> nat \<Rightarrow> table \<Rightarrow> error + table" where
  "batches np K B tfidf_matrix batch_start similarity_data =
     (let num_movies = length tfidf_matrix
      in if B = 0 then Inl ValueError
         else if batch_start < num_movies then
           (let batch_end = min (batch_start + B) num_movies;
                batch_sim = cosine_similarity
                              (take (batch_end - batch_start) (drop batch_start tfidf_matrix))
                              tfidf_matrix
            in case batch_rows np K batch_sim batch_start [0..<batch_end - batch_start]
                      similarity_data of
                 Inl e \<Rightarrow> Inl e
               | Inr similarity_data' \<Rightarrow>
                   batches np K B tfidf_matrix (batch_start + B) similarity_data')
         else Inr similarity_data)"
  by pat_completeness auto
termination
  by (relation "measure (\<lambda>(np, K, B, M, batch_start, sd). length M - batch_start)") auto

declare batches.simps [simp del]

definition similarity_loop :: "numpy \<Rightarrow> nat \<Rightarrow> nat \<Rightarrow> real list list \<Rightarrow> error + table" where
  "similarity_loop np K B tfidf_matrix =
     batches np K B tfidf_matrix 0 (replicate (length tfidf_matrix) None)"

definition BATCH_SIZE :: nat where
  "BATCH_SIZE = 500"

section \<open>The vectorizer (lines 108--109)\<close>

text \<open>
  Modelled from the spec: \<^verbatim>\<open>TfidfVectorizer(stop_words="english").fit_transform\<close> is
  library code, absent from the repository.  Tokenization and stop-word removal are the
  parameter \<open>analyzer\<close>; a document is the list of its remaining tokens.  The vocabulary
  is the distinct tokens of the corpus, each with a column index (its position).
\<close>

definition vocabulary :: "'t::linorder list list \<Rightarrow> 't list" where
  "vocabulary docs = sort (remdups (concat docs))"

text \<open>Modelled from the spec: term frequency, the raw count of token \<open>t\<close> in document \<open>d\<close>.\<close>

definition tf :: "'t list \<Rightarrow> 't \<Rightarrow> nat" where
  "tf d t = count_list d t"

text \<open>
  Modelled from the spec: document frequency, the number of documents that contain
  token \<open>t\<close> at least once.
\<close>

definition df :: "'t list list \<Rightarrow> 't \<Rightarrow> nat" where
  "df docs t = length (filter (\<lambda>d. t \<in> set d) docs)"

text \<open>Modelled from the spec: \<open>idf(j) = ln((1 + N) / (1 + df(j))) + 1\<close>.\<close>

definition idf :: "'t list list \<Rightarrow> 't \<Rightarrow> real" where
  "idf docs t = ln ((1 + real (length docs)) / (1 + real (df docs t))) + 1"

text \<open>Modelled from the spec: \<open>Weight(i, j) = TF(i, j) \<times> IDF(j)\<close>, one row per document.\<close>

definition weights :: "'t::linorder list list \<Rightarrow> 't list \<Rightarrow> real list" where
  "weights docs d = map (\<lambda>t. real (tf d t) * idf docs t) (vocabulary docs)"

text \<open>
  Modelled from the spec: each row is then L2-normalized; an empty document yields an
  all-zero row, without a division error.
\<close>

definition tfidf_row :: "'t::linorder list list \<Rightarrow> 't list \<Rightarrow> real list" where
  "tfidf_row docs d = normalize_row (weights docs d)"

text \<open>
  Modelled from the spec: the vectorizer fails with \<open>EmptyCorpus\<close> if there is no
  document, and with \<open>DegenerateVocabulary\<close> if no column survives.
\<close>

definition fit_transform :: "(string \<Rightarrow> 't::linorder list) \<Rightarrow> string list \<Rightarrow> error + real list list" where
  "fit_transform analyzer raw_documents =
     (let docs = map analyzer raw_documents
      in if docs = [] then Inl EmptyCorpus
         else if vocabulary docs = [] then Inl DegenerateVocabulary
         else Inr (map (tfidf_row docs) docs))"

text \<open>
  An analyzer for the examples: a non-empty document is a single token, the empty
  document has none.
\<close>

definition whole_token :: "string \<Rightarrow> string list" where
  "whole_token s = (if s = [] then [] else [s])"

section \<open>The whole computation (lines 104--155)\<close>

definition precompute :: "numpy \<Rightarrow> (string \<Rightarrow> 't::linorder list) \<Rightarrow> nat \<Rightarrow> nat \<Rightarrow> string list \<Rightarrow> error + table" where
  "precompute np analyzer K B content_features =
     (case fit_transform analyzer content_features of
        Inl e \<Rightarrow> Inl e
      | Inr tfidf_matrix \<Rightarrow> similarity_loop np K B tfidf_matrix)"

definition precompute_data :: "numpy \<Rightarrow> (string \<Rightarrow> 't::linorder list) \<Rightarrow> row list \<Rightarrow> error + table" where
  "precompute_data np analyzer df_movie =
     precompute np analyzer TOP_N_SIMILAR BATCH_SIZE (map create_content_features df_movie)"

section \<open>Reference notions for the proofs\<close>

text \<open>The scores of all entries but \<open>i\<close> in a similarity row.\<close>

definition others :: "real list \<Rightarrow> nat \<Rightarrow> real list" where
  "others scores i = map (\<lambda>j. scores ! j) (filter (\<lambda>j. j \<noteq> i) [0..<length scores])"

text \<open>The similarity row of entry \<open>i\<close> against the whole matrix.\<close>

definition similarity_row :: "real list list \<Rightarrow> nat \<Rightarrow> real list" where
  "similarity_row M i = map (\<lambda>y. dot (normalize_row (M ! i)) (normalize_row y)) M"

text \<open>
  The computation without batches: the entries of \<open>is\<close> one after the other, each
  against the whole matrix, each list stored under the entry's own index.
\<close>

fun unbatched :: "numpy \<Rightarrow> nat \<Rightarrow> real list list \<Rightarrow> nat list \<Rightarrow> table \<Rightarrow> error + table" where
  "unbatched np K M [] similarity_data = Inr similarity_data"
| "unbatched np K M (i # rest) similarity_data =
     (case top_similar np K (similarity_row M i) i of
        Inl e \<Rightarrow> Inl e
      | Inr top_sim \<Rightarrow> unbatched np K M rest (similarity_data[i := Some top_sim]))"

section \<open>Rounding is monotone\<close>

lemma round_half_even_bounds:
  "\<lfloor>x\<rfloor> \<le> round_half_even x" "round_half_even x \<le> \<lfloor>x\<rfloor> + 1"
  by (simp_all add: round_half_even_def Let_def)

lemma round_half_even_mono:
  assumes "x \<le> y"
  shows "round_half_even x \<le> round_half_even y"
proof (cases "\<lfloor>x\<rfloor> = \<lfloor>y\<rfloor>")
  case True
  with assms show ?thesis
    by (auto simp: round_half_even_def Let_def)
next
  case False
  with assms have "\<lfloor>x\<rfloor> + 1 \<le> \<lfloor>y\<rfloor>"
    using floor_mono [of x y] by linarith
  with round_half_even_bounds(2) [of x] round_half_even_bounds(1) [of y]
  show ?thesis by linarith
qed

lemma round_half_even_of_int [simp]: "round_half_even (of_int z) = z"
  by (simp add: round_half_even_def)

lemma py_round_mono: "x \<le> y \<Longrightarrow> py_round x n \<le> py_round y n"
  unfolding py_round_def
  by (intro divide_right_mono of_int_le_iff[THEN iffD2] round_half_even_mono mult_right_mono) simp_all

lemma py_round_zero [simp]: "py_round 0 n = 0"
  using round_half_even_of_int [of 0] by (simp add: py_round_def del: round_half_even_of_int)

lemma py_round_one [simp]: "py_round 1 n = 1"
proof -
  have "round_half_even (10 ^ n) = 10 ^ n"
    using round_half_even_of_int [of "10 ^ n"] by simp
  then show ?thesis by (simp add: py_round_def)
qed


section \<open>The reference routines meet the contracts\<close>

lemma argsort_ref_ok: "argsort_ok argsort_ref"
  by (simp add: argsort_ok_def argsort_ref_def)

lemma argpartition_ref_ok: "argpartition_ok argpartition_ref"
proof -
  have part: "a ! (argsort_ref a ! i) \<le> a ! (argsort_ref a ! j)"
    if "i \<le> j" "j < length a" for a :: "real list" and i j
  proof -
    have len: "length (argsort_ref a) = length a"
      by (simp add: argsort_ref_def)
    have "sorted (map (\<lambda>j. a ! j) (argsort_ref a))"
      by (simp add: argsort_ref_def)
    from sorted_nth_mono [OF this, of i j] that len show ?thesis
      by simp
  qed
  show ?thesis
    unfolding argpartition_ok_def argpartition_ref_def Let_def
    apply (intro allI)
    apply (auto simp: argsort_ref_def[symmetric] intro!: part)
    apply (simp_all add: argsort_ref_def)
    done
qed

lemma numpy_ref_ok: "numpy_ok numpy_ref"
  by (simp add: numpy_ok_def numpy_ref_def argsort_ref_ok argpartition_ref_ok)

section \<open>Consequences of the contracts\<close>

lemma argpartition_okD:
  assumes "argpartition_ok ap" and "K < length a"
  shows "\<exists>p. ap a (- int K - 1) = Inr p \<and> mset p = mset [0..<length a] \<and>
           (\<forall>x\<in>set (take (length a - (K + 1)) p).
              \<forall>y\<in>set (drop (length a - (K + 1)) p). a ! x \<le> a ! y)"
proof -
  define n where "n = length a"
  define m where "m = n - (K + 1)"
  have k: "- int K - 1 + int n = int m" "m < n"
    using assms(2) by (simp_all add: n_def m_def)
  from assms(1) [unfolded argpartition_ok_def, rule_format, of a "- int K - 1"] k
  obtain p where p: "ap a (- int K - 1) = Inr p" "mset p = mset [0..<n]"
    and part: "\<And>j. j < n \<Longrightarrow> (j < m \<longrightarrow> a ! (p ! j) \<le> a ! (p ! m)) \<and>
                               (m < j \<longrightarrow> a ! (p ! m) \<le> a ! (p ! j))"
    by (auto simp: Let_def n_def[symmetric])
  have len: "length p = n"
    using p(2) by (metis length_upt mset_eq_length minus_nat.diff_0)
  have "a ! x \<le> a ! y" if "x \<in> set (take m p)" "y \<in> set (drop m p)" for x y
  proof -
    from that(1) len k(2) obtain j where j: "j < m" "x = p ! j"
      by (auto simp: in_set_conv_nth)
    from that(2) len obtain l where l: "m + l < n" "y = p ! (m + l)"
      by (auto simp: in_set_conv_nth) (metis less_diff_conv add.commute)
    have "a ! x \<le> a ! (p ! m)"
      using part [of j] j k(2) by simp
    also have "a ! (p ! m) \<le> a ! y"
      using part [of "m + l"] l by (cases "l = 0") simp_all
    finally show ?thesis .
  qed
  with p show ?thesis
    by (auto simp: n_def m_def)
qed

lemma argpartition_errD:
  assumes "argpartition_ok ap" and "0 < length a" and "length a \<le> K"
  shows "ap a (- int K - 1) = Inl ValueError"
  using assms(1) [unfolded argpartition_ok_def, rule_format, of a "- int K - 1"] assms(2,3)
  by (auto simp: Let_def split: if_splits)

lemma argsort_okD:
  assumes "argsort_ok srt"
  shows "mset (srt a) = mset [0..<length a]" and "map (\<lambda>j. a ! j) (srt a) = sort a"
proof -
  from assms show perm: "mset (srt a) = mset [0..<length a]"
    by (simp add: argsort_ok_def)
  have "mset (map (\<lambda>j. a ! j) (srt a)) = mset (map (\<lambda>j. a ! j) [0..<length a])"
    using perm by (metis mset_map)
  then have "mset (map (\<lambda>j. a ! j) (srt a)) = mset a"
    by (simp add: map_nth)
  moreover from assms have "sorted (map (\<lambda>j. a ! j) (srt a))"
    by (simp add: argsort_ok_def)
  ultimately show "map (\<lambda>j. a ! j) (srt a) = sort a"
    by (metis properties_for_sort)
qed

lemma sort_append_le:
  fixes A B :: "'a::linorder list"
  assumes "\<forall>x\<in>set A. \<forall>y\<in>set B. x \<le> y"
  shows "sort (A @ B) = sort A @ sort B"
proof (rule properties_for_sort)
  show "mset (sort A @ sort B) = mset (A @ B)" by simp
  show "sorted (sort A @ sort B)"
    using assms by (simp add: sorted_append)
qed

lemma perm_upt_facts:
  assumes "mset p = mset [0..<n]"
  shows "length p = n" "distinct p" "set p = {0..<n}"
proof -
  show "length p = n"
    using assms by (metis length_upt mset_eq_length minus_nat.diff_0)
  show "distinct p"
    using assms by (metis distinct_upt mset_eq_imp_distinct_iff)
  show "set p = {0..<n}"
    using assms by (metis atLeastLessThan_upt mset_eq_setD)
qed


lemma distinct_filter_eq_le1: "distinct xs \<Longrightarrow> length (filter (\<lambda>j. j = i) xs) \<le> 1"
  by (induction xs) (auto simp: filter_empty_conv)

lemma np_take_Inr: "\<forall>j\<in>set idx. j < length a \<Longrightarrow> np_take a idx = Inr (map (\<lambda>j. a ! j) idx)"
  by (simp add: np_take_def list_all_iff)

section \<open>The selection for one row\<close>

lemma top_similar_char:
  assumes ok: "numpy_ok np" and K: "K < length scores"
  shows "\<exists>idx. top_similar np K scores i = Inr (map (\<lambda>j. (j, py_round (scores ! j) 4)) idx) \<and>
           length idx = K \<and> distinct idx \<and> set idx \<subseteq> {0..<length scores} - {i} \<and>
           map (\<lambda>j. scores ! j) idx = take K (rev (sort (others scores i)))"
proof -
  define n where "n = length scores"
  define m where "m = n - (K + 1)"
  from ok have ap: "argpartition_ok (argpartition np)" and srt: "argsort_ok (argsort np)"
    by (simp_all add: numpy_ok_def)
  from argpartition_okD [OF ap K]
  obtain p where p: "argpartition np scores (- int K - 1) = Inr p" "mset p = mset [0..<n]"
    and part: "\<forall>x\<in>set (take m p). \<forall>y\<in>set (drop m p). scores ! x \<le> scores ! y"
    by (auto simp: n_def m_def)
  note pf = perm_upt_facts [OF p(2)]
  define lo where "lo = filter (\<lambda>j. j \<noteq> i) (take m p)"
  define cand where "cand = filter (\<lambda>j. j \<noteq> i) (drop m p)"
  define vals where "vals = map (\<lambda>j. scores ! j) cand"
  define ord where "ord = rev (argsort np vals)"
  define by_score where "by_score = map (\<lambda>j. cand ! j) ord"
  define idx where "idx = take K by_score"
  have cand_sub: "set cand \<subseteq> {0..<n} - {i}"
    using pf(3) by (auto simp: cand_def dest: in_set_dropD)
  have cand_dist: "distinct cand"
    using pf(2) by (simp add: cand_def)
  have "length (drop m p) = K + 1"
    using pf(1) K by (simp add: m_def n_def)
  moreover have "length (drop m p) \<le> length cand + 1"
  proof -
    have "distinct (drop m p)" using pf(2) by simp
    then have "length (filter (\<lambda>j. j = i) (drop m p)) \<le> 1"
      by (rule distinct_filter_eq_le1)
    moreover have "length (drop m p) = length (filter (\<lambda>j. j = i) (drop m p)) + length cand"
      unfolding cand_def using sum_length_filter_compl [of "\<lambda>j. j = i" "drop m p"] by simp
    ultimately show ?thesis by simp
  qed
  ultimately have cand_len: "K \<le> length cand" by simp
  have take1: "np_take scores cand = Inr vals"
    unfolding vals_def using cand_sub by (intro np_take_Inr) (auto simp: n_def)
  have ord_perm: "mset ord = mset [0..<length cand]"
    using argsort_okD(1) [OF srt, of vals] by (simp add: ord_def vals_def)
  note of = perm_upt_facts [OF ord_perm]
  have take2: "np_take cand ord = Inr by_score"
    unfolding by_score_def using of(3) by (intro np_take_Inr) simp
  have c: "filter (\<lambda>j. j \<noteq> i) (drop (length p - (K + 1)) p) = cand"
    by (simp add: cand_def m_def pf(1))
  have res: "top_similar np K scores i = Inr (map (\<lambda>j. (j, py_round (scores ! j) 4)) idx)"
    unfolding top_similar_def Let_def
    by (simp only: p(1) sum.case c take1 ord_def [symmetric] take2 idx_def [symmetric])
  have bs_mset: "mset by_score = mset cand"
  proof -
    have "mset by_score = mset (map (\<lambda>j. cand ! j) [0..<length cand])"
      unfolding by_score_def using ord_perm by (metis mset_map)
    then show ?thesis by (simp add: map_nth)
  qed
  have bs_dist: "distinct by_score"
    using bs_mset cand_dist by (metis mset_eq_imp_distinct_iff)
  have bs_set: "set by_score = set cand"
    using bs_mset by (metis mset_eq_setD)
  have bs_len: "length by_score = length cand"
    using bs_mset by (metis mset_eq_length)
  have bs_vals: "map (\<lambda>j. scores ! j) by_score = rev (sort vals)"
  proof -
    have "map (\<lambda>j. scores ! j) by_score = map (\<lambda>j. vals ! j) ord"
      unfolding by_score_def vals_def using of(3) by simp
    also have "\<dots> = rev (map (\<lambda>j. vals ! j) (argsort np vals))"
      by (simp add: ord_def rev_map)
    also have "\<dots> = rev (sort vals)"
      by (simp add: argsort_okD(2) [OF srt])
    finally show ?thesis .
  qed
  have split_sort: "sort (others scores i) = sort (map (\<lambda>j. scores ! j) lo) @ sort vals"
  proof -
    have "mset (others scores i) = mset (map (\<lambda>j. scores ! j) (filter (\<lambda>j. j \<noteq> i) p))"
      unfolding others_def n_def [symmetric] using p(2) by (metis mset_filter mset_map)
    also have "filter (\<lambda>j. j \<noteq> i) p = lo @ cand"
      unfolding lo_def cand_def by (metis append_take_drop_id filter_append)
    finally have "mset (others scores i) = mset (map (\<lambda>j. scores ! j) lo @ vals)"
      by (simp add: vals_def)
    then have "sort (others scores i) = sort (map (\<lambda>j. scores ! j) lo @ vals)"
      by (metis properties_for_sort sorted_sort mset_sort)
    also have "\<dots> = sort (map (\<lambda>j. scores ! j) lo) @ sort vals"
      using part by (intro sort_append_le) (auto simp: lo_def cand_def vals_def)
    finally show ?thesis .
  qed
  have "map (\<lambda>j. scores ! j) idx = take K (rev (sort vals))"
    unfolding idx_def take_map [symmetric] bs_vals ..
  also have "\<dots> = take K (rev (sort (others scores i)))"
    using cand_len by (simp add: split_sort vals_def)
  finally have top: "map (\<lambda>j. scores ! j) idx = take K (rev (sort (others scores i)))" .
  have "length idx = K"
    using cand_len bs_len by (simp add: idx_def)
  moreover have "distinct idx"
    using bs_dist by (simp add: idx_def)
  moreover have "set idx \<subseteq> {0..<length scores} - {i}"
    using cand_sub bs_set set_take_subset [of K by_score] by (auto simp: idx_def n_def)
  ultimately show ?thesis
    using res top by blast
qed

lemma top_similar_small:
  assumes "numpy_ok np" and "0 < length scores" and "length scores \<le> K"
  shows "top_similar np K scores i = Inl ValueError"
  using argpartition_errD [OF _ assms(2,3), of "argpartition np"] assms(1)
  by (simp add: top_similar_def numpy_ok_def)

lemma np_take_InrD:
  assumes "np_take a idx = Inr r"
  shows "r = map (\<lambda>j. a ! j) idx" and "\<forall>j\<in>set idx. j < length a" and "set r \<subseteq> set a"
proof -
  from assms show r: "r = map (\<lambda>j. a ! j) idx" and b: "\<forall>j\<in>set idx. j < length a"
    by (auto simp: np_take_def list_all_iff split: if_splits)
  from r b show "set r \<subseteq> set a" by auto
qed

lemma top_similar_no_self:
  assumes "top_similar np K scores i = Inr nl"
  shows "i \<notin> fst ` set nl"
proof -
  from assms obtain part cand_scores by_score where
    bs: "np_take (filter (\<lambda>j. j \<noteq> i) (drop (length part - (K + 1)) part))
           (rev (argsort np cand_scores)) = Inr by_score"
    and nl: "nl = map (\<lambda>idx. (idx, py_round (scores ! idx) 4)) (take K by_score)"
    by (auto simp: top_similar_def Let_def split: sum.splits)
  from np_take_InrD(3) [OF bs] have "i \<notin> set by_score" by auto
  then have "i \<notin> set (take K by_score)" by (auto dest: in_set_takeD)
  then show ?thesis by (auto simp: nl)
qed

section \<open>The batched loop is the unbatched computation\<close>

lemma unbatched_append:
  "unbatched np K M (xs @ ys) sd =
     (case unbatched np K M xs sd of Inl e \<Rightarrow> Inl e | Inr sd' \<Rightarrow> unbatched np K M ys sd')"
  by (induction xs arbitrary: sd) (auto split: sum.splits)

lemma batch_rows_unbatched:
  assumes "s + m \<le> length M" and "\<forall>l\<in>set ls. l < m"
  shows "batch_rows np K (cosine_similarity (take m (drop s M)) M) s ls sd =
         unbatched np K M (map (\<lambda>l. s + l) ls) sd"
  using assms(2)
proof (induction ls arbitrary: sd)
  case Nil
  then show ?case by simp
next
  case (Cons l ls)
  then have l: "l < m" by simp
  with assms(1) have "cosine_similarity (take m (drop s M)) M ! l = similarity_row M (s + l)"
    by (simp add: cosine_similarity_def similarity_row_def)
  with Cons show ?case
    by (simp add: Let_def split: sum.splits)
qed

lemma batches_unbatched:
  assumes "0 < B"
  shows "batches np K B M s sd = unbatched np K M [s..<length M] sd"
  using assms
proof (induction np K B M s sd rule: batches.induct)
  case (1 np K B M s sd)
  show ?case
  proof (cases "s < length M")
    case False
    with 1(2) show ?thesis by (simp add: batches.simps [of np K B M s sd])
  next
    case True
    define e where "e = min (s + B) (length M)"
    have e: "s \<le> e" "e \<le> length M" using True by (simp_all add: e_def)
    have br: "batch_rows np K (cosine_similarity (take (e - s) (drop s M)) M) s [0..<e - s] sd =
              unbatched np K M [s..<e] sd"
    proof -
      have "map (\<lambda>l. l + s) [0..<e - s] = [s..<e]"
        using e(1) by (simp add: map_add_upt)
      then have "map (\<lambda>l. s + l) [0..<e - s] = [s..<e]"
        by (simp add: add.commute)
      with batch_rows_unbatched [of s "e - s" M "[0..<e - s]" np K sd] e show ?thesis
        by simp
    qed
    have tail: "[s + B..<length M] = [e..<length M]"
      by (cases "s + B \<le> length M") (simp_all add: e_def min_def)
    have split: "[s..<length M] = [s..<e] @ [e..<length M]"
      using upt_add_eq_append [of s e "length M - e"] e by simp
    show ?thesis
    proof (cases "unbatched np K M [s..<e] sd")
      case (Inl err)
      with True 1(2) br show ?thesis
        by (simp add: batches.simps [of np K B M s sd] Let_def e_def [symmetric] split
            unbatched_append)
    next
      case (Inr sd')
      with 1(1) [OF refl _ True refl refl, of sd'] True 1(2) br show ?thesis
        by (simp add: batches.simps [of np K B M s sd] Let_def e_def [symmetric] split
            unbatched_append tail)
    qed
  qed
qed

lemma similarity_loop_unbatched:
  "0 < B \<Longrightarrow> similarity_loop np K B M =
     unbatched np K M [0..<length M] (replicate (length M) None)"
  by (simp add: similarity_loop_def batches_unbatched)

lemma similarity_loop_zero_batch: "similarity_loop np K 0 M = Inl ValueError"
  by (simp add: similarity_loop_def batches.simps [of np K 0])

lemma unbatched_InrD:
  assumes "unbatched np K M is sd = Inr sd'"
  shows "length sd' = length sd"
    and "i < length sd \<Longrightarrow> i \<in> set is \<Longrightarrow>
           \<exists>t. top_similar np K (similarity_row M i) i = Inr t \<and> sd' ! i = Some t"
    and "i \<notin> set is \<Longrightarrow> sd' ! i = sd ! i"
  using assms
proof (induction "is" arbitrary: sd)
  case Nil
  { case 1 then show ?case by simp }
  { case 2 then show ?case by simp }
  { case 3 then show ?case by simp }
next
  case (Cons a rest)
  { case 1 with Cons(1) show ?case by (auto split: sum.splits) }
  { case 2
    from 2(3) obtain t where t: "top_similar np K (similarity_row M a) a = Inr t"
      and r: "unbatched np K M rest (sd[a := Some t]) = Inr sd'"
      by (auto split: sum.splits)
    show ?case
    proof (cases "i \<in> set rest")
      case True
      with Cons(2) [OF _ _ r] 2(1) show ?thesis by simp
    next
      case False
      with 2(2) have "i = a" by simp
      with Cons(3) [OF _ r] False t 2(1) show ?thesis by simp
    qed }
  { case 3
    from 3(2) obtain t where r: "unbatched np K M rest (sd[a := Some t]) = Inr sd'"
      by (auto split: sum.splits)
    from Cons(3) [OF _ r] 3(1) show ?case by simp }
qed

lemma unbatched_succeeds:
  assumes "\<forall>i\<in>set is. \<exists>t. top_similar np K (similarity_row M i) i = Inr t"
  shows "\<exists>sd'. unbatched np K M is sd = Inr sd'"
  using assms by (induction "is" arbitrary: sd) auto

lemma unbatched_fails_first:
  assumes "top_similar np K (similarity_row M i) i = Inl e"
  shows "unbatched np K M (i # rest) sd = Inl e"
  using assms by simp

section \<open>The table of the whole loop\<close>

lemma similarity_row_length [simp]: "length (similarity_row M i) = length M"
  by (simp add: similarity_row_def)

lemma similarity_loop_entries:
  assumes ok: "numpy_ok np" and B: "0 < B" and K: "K < length M"
  shows "\<exists>t. similarity_loop np K B M = Inr t \<and> length t = length M \<and>
           (\<forall>i<length M. \<exists>idx.
              t ! i = Some (map (\<lambda>j. (j, py_round (similarity_row M i ! j) 4)) idx) \<and>
              length idx = K \<and> distinct idx \<and> set idx \<subseteq> {0..<length M} - {i} \<and>
              map (\<lambda>j. similarity_row M i ! j) idx =
                take K (rev (sort (others (similarity_row M i) i))))"
proof -
  have row: "\<exists>idx. top_similar np K (similarity_row M i) i =
                 Inr (map (\<lambda>j. (j, py_round (similarity_row M i ! j) 4)) idx) \<and>
               length idx = K \<and> distinct idx \<and> set idx \<subseteq> {0..<length M} - {i} \<and>
               map (\<lambda>j. similarity_row M i ! j) idx =
                 take K (rev (sort (others (similarity_row M i) i)))" for i
    using top_similar_char [OF ok, of K "similarity_row M i" i] K by simp
  then have "\<forall>i\<in>set [0..<length M]. \<exists>t. top_similar np K (similarity_row M i) i = Inr t"
    by blast
  from unbatched_succeeds [OF this, of "replicate (length M) None"]
  obtain t where t: "unbatched np K M [0..<length M] (replicate (length M) None) = Inr t"
    by blast
  have "\<exists>idx. t ! i = Some (map (\<lambda>j. (j, py_round (similarity_row M i ! j) 4)) idx) \<and>
           length idx = K \<and> distinct idx \<and> set idx \<subseteq> {0..<length M} - {i} \<and>
           map (\<lambda>j. similarity_row M i ! j) idx =
             take K (rev (sort (others (similarity_row M i) i)))"
    if "i < length M" for i
    using unbatched_InrD(2) [OF t, of i] that row [of i] by auto
  with t unbatched_InrD(1) [OF t] B show ?thesis
    by (simp add: similarity_loop_unbatched)
qed

lemma similarity_loop_small:
  assumes "numpy_ok np" and "0 < length M" and "length M \<le> K"
  shows "similarity_loop np K B M = Inl ValueError"
proof (cases "B = 0")
  case True
  then show ?thesis by (simp add: similarity_loop_zero_batch)
next
  case False
  from assms have "top_similar np K (similarity_row M 0) 0 = Inl ValueError"
    by (intro top_similar_small) simp_all
  moreover from assms(2) have "[0..<length M] = 0 # [1..<length M]"
    by (simp add: upt_conv_Cons)
  ultimately show ?thesis
    using False by (simp add: similarity_loop_unbatched)
qed

lemma similarity_loop_InrD:
  assumes "similarity_loop np K B M = Inr t"
  shows "0 < B" and "length t = length M"
    and "i < length M \<Longrightarrow> \<exists>nl. top_similar np K (similarity_row M i) i = Inr nl \<and> t ! i = Some nl"
proof -
  from assms show B: "0 < B"
    by (cases "B = 0") (simp_all add: similarity_loop_zero_batch)
  with assms have u: "unbatched np K M [0..<length M] (replicate (length M) None) = Inr t"
    by (simp add: similarity_loop_unbatched)
  from unbatched_InrD(1) [OF u] show "length t = length M" by simp
  assume "i < length M"
  with unbatched_InrD(2) [OF u, of i]
  show "\<exists>nl. top_similar np K (similarity_row M i) i = Inr nl \<and> t ! i = Some nl"
    by simp
qed

lemma sorted_desc_rounded:
  "sorted_wrt (\<lambda>a b. b \<le> a) (map (\<lambda>v. py_round v n) (take K (rev (sort xs))))"
proof -
  have "sorted_wrt (\<lambda>a b. b \<le> a) (rev (sort xs))"
    by (simp add: sorted_wrt_rev)
  then have "sorted_wrt (\<lambda>a b. b \<le> a) (take K (rev (sort xs)))"
    by (rule sorted_wrt_take)
  then show ?thesis
    unfolding sorted_wrt_map by (rule sorted_wrt_mono_rel [rotated]) (simp add: py_round_mono)
qed

lemma loop_Inr_large:
  assumes "numpy_ok np" and "similarity_loop np K B M = Inr t" and "i < length M"
  shows "K < length M"
proof (rule ccontr)
  assume "\<not> K < length M"
  with assms(3) have "0 < length M" "length M \<le> K" by auto
  from similarity_loop_small [OF assms(1) this, of B] assms(2) show False by simp
qed

lemma entries_scores:
  assumes "numpy_ok np" and "similarity_loop np K B M = Inr t" and "i < length M"
  shows "\<exists>nl. t ! i = Some nl \<and> length nl = K \<and>
           map snd nl = map (\<lambda>v. py_round v 4) (take K (rev (sort (others (similarity_row M i) i))))"
proof -
  from loop_Inr_large [OF assms] have K: "K < length M" .
  from similarity_loop_InrD(1) [OF assms(2)] have B: "0 < B" .
  from similarity_loop_entries [OF assms(1) B K] assms(2,3)
  obtain idx where idx: "t ! i = Some (map (\<lambda>j. (j, py_round (similarity_row M i ! j) 4)) idx)"
    "length idx = K"
    "map (\<lambda>j. similarity_row M i ! j) idx = take K (rev (sort (others (similarity_row M i) i)))"
    by auto
  have "map snd (map (\<lambda>j. (j, py_round (similarity_row M i ! j) 4)) idx) =
        map (\<lambda>v. py_round v 4) (map (\<lambda>j. similarity_row M i ! j) idx)"
    by simp
  with idx show ?thesis by simp
qed

section \<open>Dot products and norms\<close>

lemma sum_sq_nonneg: "0 \<le> (\<Sum>a\<leftarrow>u. a\<^sup>2)" for u :: "real list"
  by (induction u) simp_all

lemma sum_sq_zero_iff: "(\<Sum>a\<leftarrow>u. a\<^sup>2) = 0 \<longleftrightarrow> (\<forall>a\<in>set u. a = 0)" for u :: "real list"
proof (induction u)
  case Nil
  then show ?case by simp
next
  case (Cons a u)
  have "a\<^sup>2 + (\<Sum>a\<leftarrow>u. a\<^sup>2) = 0 \<longleftrightarrow> a\<^sup>2 = 0 \<and> (\<Sum>a\<leftarrow>u. a\<^sup>2) = 0"
    using sum_sq_nonneg [of u] by (intro add_nonneg_eq_0_iff) simp_all
  with Cons show ?case by simp
qed

lemma l2_norm_zero_iff: "l2_norm u = 0 \<longleftrightarrow> (\<forall>a\<in>set u. a = 0)"
  by (simp add: l2_norm_def sum_sq_zero_iff)


lemma sum_sq_divide: "(\<Sum>a\<leftarrow>map (\<lambda>a. a / n) u. a\<^sup>2) = (\<Sum>a\<leftarrow>u. a\<^sup>2) / n\<^sup>2" for u :: "real list"
  by (induction u) (simp_all add: power_divide add_divide_distrib)

lemma sum_sq_normalize:
  "(\<Sum>a\<leftarrow>normalize_row u. a\<^sup>2) = (if l2_norm u = 0 then 0 else 1)"
proof (cases "l2_norm u = 0")
  case True
  then show ?thesis
    by (simp add: normalize_row_def) (simp add: l2_norm_def)
next
  case False
  then have pos: "0 < (\<Sum>a\<leftarrow>u. a\<^sup>2)"
    using sum_sq_nonneg [of u] by (simp add: l2_norm_def less_eq_real_def)
  have sq: "(l2_norm u)\<^sup>2 = (\<Sum>a\<leftarrow>u. a\<^sup>2)"
    by (simp add: l2_norm_def sum_sq_nonneg)
  have "(\<Sum>a\<leftarrow>normalize_row u. a\<^sup>2) = (\<Sum>a\<leftarrow>map (\<lambda>a. a / l2_norm u) u. a\<^sup>2)"
    using False by (simp add: normalize_row_def Let_def)
  also have "\<dots> = (\<Sum>a\<leftarrow>u. a\<^sup>2) / (l2_norm u)\<^sup>2"
    by (rule sum_sq_divide)
  also have "\<dots> = 1"
    using pos by (simp add: sq)
  finally show ?thesis
    using False by simp
qed

lemma l2_norm_normalize:
  "l2_norm (normalize_row u) = (if l2_norm u = 0 then 0 else 1)"
  by (simp add: l2_norm_def [of "normalize_row u"] sum_sq_normalize)

lemma normalize_row_idem: "normalize_row (normalize_row u) = normalize_row u"
proof -
  have "normalize_row v = v" if "l2_norm v = 0 \<or> l2_norm v = 1" for v
    using that by (auto simp: normalize_row_def)
  with l2_norm_normalize [of u] show ?thesis by simp
qed



lemma dot_zero_left: "\<forall>a\<in>set u. a = 0 \<Longrightarrow> dot u v = 0"
proof (induction u arbitrary: v)
  case Nil
  then show ?case by (simp add: dot_def)
next
  case (Cons a u)
  then show ?case by (cases v) (simp_all add: dot_def)
qed


lemma normalize_row_zero: "\<forall>a\<in>set u. a = 0 \<Longrightarrow> normalize_row u = u"
  by (simp add: normalize_row_def l2_norm_zero_iff)



section \<open>Rows of the vectorizer\<close>

lemma vocabulary_set [simp]: "set (vocabulary docs) = \<Union> (set ` set docs)"
  by (simp add: vocabulary_def)

lemma vocabulary_empty_iff: "vocabulary docs = [] \<longleftrightarrow> (\<forall>d\<in>set docs. d = [])"
proof -
  have "vocabulary docs = [] \<longleftrightarrow> set (vocabulary docs) = {}"
    by (simp only: set_empty)
  also have "\<dots> \<longleftrightarrow> (\<forall>d\<in>set docs. d = [])"
    by (simp only: vocabulary_set) auto
  finally show ?thesis .
qed

lemma fit_transform_Inr:
  assumes "\<exists>d\<in>set raw. analyzer d \<noteq> []"
  shows "fit_transform analyzer raw =
           Inr (map (tfidf_row (map analyzer raw)) (map analyzer raw))"
proof -
  from assms have "raw \<noteq> []" by auto
  moreover from assms have "vocabulary (map analyzer raw) \<noteq> []"
    by (simp add: vocabulary_empty_iff)
  ultimately show ?thesis by (simp add: fit_transform_def Let_def)
qed

lemma fit_transform_InrD:
  assumes "fit_transform analyzer raw = Inr M"
  shows "M = map (tfidf_row (map analyzer raw)) (map analyzer raw)"
  using assms by (simp add: fit_transform_def Let_def split: if_splits)

lemma idf_ge_one: "1 \<le> idf docs t"
proof -
  have "df docs t \<le> length docs" by (simp add: df_def)
  then have "1 \<le> (1 + real (length docs)) / (1 + real (df docs t))"
    by (simp add: le_divide_eq)
  then have "0 \<le> ln ((1 + real (length docs)) / (1 + real (df docs t)))"
    by (rule ln_ge_zero)
  then show ?thesis by (simp add: idf_def)
qed


lemma weights_empty: "\<forall>a\<in>set (weights docs []). a = 0"
  by (simp add: weights_def tf_def)

lemma weights_nonzero:
  assumes "d \<in> set docs" and "d \<noteq> []"
  shows "l2_norm (weights docs d) \<noteq> 0"
proof -
  from assms(2) obtain t where t: "t \<in> set d" by (cases d) auto
  with assms(1) have v: "t \<in> set (vocabulary docs)" by auto
  from t have "tf d t \<noteq> 0" by (simp add: tf_def count_list_0_iff)
  then have "0 < tf d t" by simp
  with idf_ge_one [of docs t] have "0 < real (tf d t) * idf docs t"
    by (intro mult_pos_pos) simp_all
  with v have "\<exists>a\<in>set (weights docs d). a \<noteq> 0"
    unfolding weights_def by (metis (mono_tags, lifting) image_eqI less_irrefl list.set_map)
  then show ?thesis by (simp add: l2_norm_zero_iff)
qed

lemma tfidf_row_norm:
  "d \<in> set docs \<Longrightarrow> d \<noteq> [] \<Longrightarrow> l2_norm (tfidf_row docs d) = 1"
  by (simp add: tfidf_row_def l2_norm_normalize weights_nonzero)

lemma tfidf_row_empty: "\<forall>a\<in>set (tfidf_row docs []). a = 0"
  using weights_empty [of docs] by (simp add: tfidf_row_def normalize_row_zero)


lemma tfidf_row_normalized: "normalize_row (tfidf_row docs d) = tfidf_row docs d"
  by (simp add: tfidf_row_def normalize_row_idem)

section \<open>Emitted scores\<close>

lemma emitted_in_set:
  assumes "map snd nl = map (\<lambda>v. py_round v 4) (take K (rev (sort (others scores i))))"
    and "(j, s) \<in> set nl"
  shows "\<exists>v\<in>set scores. s = py_round v 4"
proof -
  from assms(2) have "s \<in> set (map snd nl)" by force
  with assms(1) obtain v where v: "v \<in> set (take K (rev (sort (others scores i))))"
    and s: "s = py_round v 4" by auto
  from v have "v \<in> set (others scores i)" by (auto dest: in_set_takeD)
  then have "v \<in> set scores" by (auto simp: others_def)
  with s show ?thesis by blast
qed

lemma similarity_loop_succeeds:
  assumes "numpy_ok np" and "0 < B" and "K < length M"
  shows "\<exists>t. similarity_loop np K B M = Inr t"
proof -
  from similarity_loop_entries [OF assms] obtain t where "similarity_loop np K B M = Inr t"
    by (elim exE conjE)
  then show ?thesis ..
qed




lemma tfidf_rows_aux:
  assumes "fit_transform analyzer raw = Inr M" and "i < length raw" and "j < length raw"
  shows "M ! i =
           normalize_row
             (map (\<lambda>t. real (count_list (analyzer (raw ! i)) t) *
                       (ln ((1 + real (length raw)) /
                            (1 + real (length (filter (\<lambda>d. t \<in> set d) (map analyzer raw))))) + 1))
                  (vocabulary (map analyzer raw)))
       \<and> (analyzer (raw ! i) \<noteq> [] \<longrightarrow> l2_norm (M ! i) = 1)
       \<and> (analyzer (raw ! i) = [] \<longrightarrow> (\<forall>a\<in>set (M ! i). a = 0))
       \<and> cosine_similarity M M ! i ! j = dot (M ! i) (M ! j)"
proof -
  define docs where "docs = map analyzer raw"
  from fit_transform_InrD [OF assms(1)] have M: "M = map (tfidf_row docs) docs"
    by (simp add: docs_def)
  from assms(2,3) have Mi: "M ! i = tfidf_row docs (analyzer (raw ! i))"
    and Mj: "M ! j = tfidf_row docs (analyzer (raw ! j))"
    and mem: "analyzer (raw ! i) \<in> set docs"
    by (simp_all add: M docs_def)
  have "M ! i = normalize_row
             (map (\<lambda>t. real (count_list (analyzer (raw ! i)) t) *
                       (ln ((1 + real (length raw)) /
                            (1 + real (length (filter (\<lambda>d. t \<in> set d) (map analyzer raw))))) + 1))
                  (vocabulary (map analyzer raw)))"
    by (simp add: Mi tfidf_row_def weights_def tf_def idf_def df_def docs_def)
  moreover have "l2_norm (M ! i) = 1" if "analyzer (raw ! i) \<noteq> []"
    using that mem by (simp add: Mi tfidf_row_norm)
  moreover have "\<forall>a\<in>set (M ! i). a = 0" if "analyzer (raw ! i) = []"
    using that tfidf_row_empty [of docs] by (simp add: Mi)
  moreover have "cosine_similarity M M ! i ! j = dot (M ! i) (M ! j)"
    using assms(2,3) by (simp add: cosine_similarity_def M docs_def tfidf_row_normalized)
  ultimately show ?thesis by blast
qed

section \<open>Worked examples\<close>

lemmas eval_defs = top_similar_def numpy_ref_def argpartition_ref_def argsort_ref_def np_take_def
  py_round_def round_half_even_def Let_def

lemmas loop_defs = similarity_loop_def batches.simps cosine_similarity_def dot_def
  normalize_row_def l2_norm_def upt_conv_Cons

lemma example_loop:
  "similarity_loop numpy_ref 2 2 [[1, 0], [1, 0], [0, 1]] =
     Inr [Some [(1, 1), (2, 0)], Some [(0, 1), (2, 0)], Some [(1, 0), (0, 0)]]"
  by (simp add: loop_defs eval_defs)

lemma example_loop_all:
  "similarity_loop numpy_ref 2 3 [[1, 0], [1, 0], [0, 1]] =
     Inr [Some [(1, 1), (2, 0)], Some [(0, 1), (2, 0)], Some [(1, 0), (0, 0)]]"
  by (simp add: loop_defs eval_defs)

lemma example_loop_zero_row:
  "similarity_loop numpy_ref 2 2 [[0], [1], [1]] =
     Inr [Some [(2, 0), (1, 0)], Some [(2, 1), (0, 0)], Some [(1, 1), (0, 0)]]"
  by (simp add: loop_defs eval_defs)

lemma replicate_numeral_Cons: "replicate (numeral k) x = x # replicate (pred_numeral k) x"
  by (simp add: numeral_eq_Suc)

lemma normalize_row_single: "0 < a \<Longrightarrow> normalize_row [a] = [1]"
  by (simp add: normalize_row_def l2_norm_def)

lemma example_corpus:
  "fit_transform whole_token ['''', ''aa'', ''aa''] = Inr [[0], [1], [1]]"
proof -
  have voc: "vocabulary [[], [''aa''], [''aa'']] = [''aa'']"
    by (simp add: vocabulary_def)
  have "0 < idf [[], [''aa''], [''aa'']] ''aa''"
    using idf_ge_one [of "[[], [''aa''], [''aa'']]" "''aa''"] by simp
  then have "tfidf_row [[], [''aa''], [''aa'']] [''aa''] = [1]"
    by (simp add: tfidf_row_def weights_def voc tf_def normalize_row_single)
  moreover have "tfidf_row [[], [''aa''], [''aa'']] [] = [0]"
    by (simp add: tfidf_row_def weights_def voc tf_def normalize_row_def l2_norm_def)
  ultimately show ?thesis
    using voc by (simp add: fit_transform_def Let_def whole_token_def)
qed

lemma example_precompute:
  "precompute numpy_ref whole_token 2 2 ['''', ''aa'', ''aa''] =
     Inr [Some [(2, 0), (1, 0)], Some [(2, 1), (0, 0)], Some [(1, 1), (0, 0)]]"
  by (simp add: precompute_def example_corpus example_loop_zero_row)

section \<open>Length of the neighbor lists\<close>

text \<open>
  Claim C1, as amended.  With routines that meet the numpy contracts and a positive batch
  size: when the corpus has more than \<open>K\<close> entries, the loop returns a table with one
  neighbor list per entry, each of length exactly \<open>min K (N - 1)\<close> (which is \<open>K\<close>);
  when the corpus is non-empty and has at most \<open>K\<close> entries, the partial selection
  raises \<open>ValueError\<close> and no table is returned.
\<close>

theorem neighbor_list_length:
  assumes "numpy_ok np" and "0 < B"
  shows "(K < length M \<longrightarrow>
            (\<exists>t. similarity_loop np K B M = Inr t \<and> length t = length M \<and>
               (\<forall>i<length M. \<exists>nl. t ! i = Some nl \<and> length nl = min K (length M - 1))))
       \<and> (0 < length M \<and> length M \<le> K \<longrightarrow> similarity_loop np K B M = Inl ValueError)"
proof (intro conjI impI)
  assume K: "K < length M"
  then have m: "min K (length M - 1) = K" by simp
  from similarity_loop_entries [OF assms K]
  obtain t where t: "similarity_loop np K B M = Inr t" "length t = length M"
    and e: "\<And>i. i < length M \<Longrightarrow> \<exists>idx.
              t ! i = Some (map (\<lambda>j. (j, py_round (similarity_row M i ! j) 4)) idx) \<and>
              length idx = K"
    by blast
  have "\<exists>nl. t ! i = Some nl \<and> length nl = min K (length M - 1)" if "i < length M" for i
    using e [OF that] m by auto
  with t show "\<exists>t. similarity_loop np K B M = Inr t \<and> length t = length M \<and>
          (\<forall>i<length M. \<exists>nl. t ! i = Some nl \<and> length nl = min K (length M - 1))"
    by blast
next
  assume "0 < length M \<and> length M \<le> K"
  with assms(1) show "similarity_loop np K B M = Inl ValueError"
    by (simp add: similarity_loop_small)
qed

text \<open>A concrete instance of the theorem.\<close>

theorem neighbor_list_length_witness:
  "numpy_ok numpy_ref \<and> (0::nat) < 2 \<and> (2::nat) < length [[1, 0], [1, 0], [0, 1::real]]
   \<and> similarity_loop numpy_ref 2 2 [[1, 0], [1, 0], [0, 1]] =
       Inr [Some [(1, 1), (2, 0)], Some [(0, 1), (2, 0)], Some [(1, 0), (0, 0)]]
   \<and> length [(1::nat, 1::real), (2, 0)] = min 2 (length [[1, 0], [1, 0], [0, 1::real]] - 1)
   \<and> 0 < length [[1::real]] \<and> length [[1::real]] \<le> 2
   \<and> similarity_loop numpy_ref 2 2 [[1]] = Inl ValueError"
  using neighbor_list_length [OF numpy_ref_ok, of 2 2 "[[1, 0], [1, 0], [0, 1]]"]
    neighbor_list_length [OF numpy_ref_ok, of 2 2 "[[1]]"] numpy_ref_ok example_loop
  by simp

text \<open>
  As stated, C1 fails: a corpus of five documents with \<open>K = 10\<close>, or with the program's
  \<open>K = 50\<close>, ends in \<open>ValueError\<close> instead of five lists of length four.
\<close>

theorem neighbor_list_length_counterexample:
  "precompute numpy_ref whole_token 10 BATCH_SIZE [''aa'', ''bb'', ''cc'', ''dd'', ''ee''] =
     Inl ValueError
   \<and> precompute numpy_ref whole_token TOP_N_SIMILAR BATCH_SIZE
        [''aa'', ''bb'', ''cc'', ''dd'', ''ee''] = Inl ValueError"
proof -
  have "\<exists>d\<in>set [''aa'', ''bb'', ''cc'', ''dd'', ''ee'']. whole_token d \<noteq> []"
    by (simp add: whole_token_def)
  from fit_transform_Inr [OF this] obtain M where
    M: "fit_transform whole_token [''aa'', ''bb'', ''cc'', ''dd'', ''ee''] = Inr M" "length M = 5"
    by simp
  from M(2) have "similarity_loop numpy_ref 10 BATCH_SIZE M = Inl ValueError"
    and "similarity_loop numpy_ref TOP_N_SIMILAR BATCH_SIZE M = Inl ValueError"
    by (simp_all add: similarity_loop_small numpy_ref_ok TOP_N_SIMILAR_def)
  with M(1) show ?thesis by (simp add: precompute_def)
qed

section \<open>Order among equal scores\<close>

text \<open>
  Claim C2, as amended.  The program has no tie-break by index: the order of entries of
  equal score, and which of the entries tied at the cut-off are kept, is whatever the
  library's partial selection and sort return.  What every pair of routines meeting the
  contracts produces is the same sequence of emitted scores: the \<open>K\<close> largest scores of
  the other entries, in non-increasing order, rounded; each listed index is listed once,
  with its own rounded score.
\<close>

theorem neighbor_list_scores_determined:
  assumes "numpy_ok np" and "0 < B" and "K < length M"
  shows "\<exists>t. similarity_loop np K B M = Inr t \<and>
           (\<forall>i<length M. \<exists>nl. t ! i = Some nl \<and>
              map snd nl =
                map (\<lambda>v. py_round v 4) (take K (rev (sort (others (similarity_row M i) i)))) \<and>
              distinct (map fst nl) \<and>
              (\<forall>(j, s)\<in>set nl. j < length M \<and> s = py_round (similarity_row M i ! j) 4))"
proof -
  from similarity_loop_entries [OF assms]
  obtain t where t: "similarity_loop np K B M = Inr t"
    and e: "\<And>i. i < length M \<Longrightarrow> \<exists>idx.
              t ! i = Some (map (\<lambda>j. (j, py_round (similarity_row M i ! j) 4)) idx) \<and>
              distinct idx \<and> set idx \<subseteq> {0..<length M} - {i} \<and>
              map (\<lambda>j. similarity_row M i ! j) idx =
                take K (rev (sort (others (similarity_row M i) i)))"
    by blast
  have "\<exists>nl. t ! i = Some nl \<and>
          map snd nl =
            map (\<lambda>v. py_round v 4) (take K (rev (sort (others (similarity_row M i) i)))) \<and>
          distinct (map fst nl) \<and>
          (\<forall>(j, s)\<in>set nl. j < length M \<and> s = py_round (similarity_row M i ! j) 4)"
    if i: "i < length M" for i
  proof -
    from e [OF i] obtain idx where idx:
      "t ! i = Some (map (\<lambda>j. (j, py_round (similarity_row M i ! j) 4)) idx)"
      "distinct idx" "set idx \<subseteq> {0..<length M} - {i}"
      "map (\<lambda>j. similarity_row M i ! j) idx =
         take K (rev (sort (others (similarity_row M i) i)))"
      by blast
    define nl where "nl = map (\<lambda>j. (j, py_round (similarity_row M i ! j) 4)) idx"
    have fst: "map fst nl = idx" by (simp add: nl_def comp_def)
    have "map snd nl = map (\<lambda>v. py_round v 4) (map (\<lambda>j. similarity_row M i ! j) idx)"
      by (simp add: nl_def comp_def)
    then have snd: "map snd nl =
        map (\<lambda>v. py_round v 4) (take K (rev (sort (others (similarity_row M i) i))))"
      by (simp only: idx(4))
    have "\<forall>(j, s)\<in>set nl. j < length M \<and> s = py_round (similarity_row M i ! j) 4"
      using idx(3) by (auto simp: nl_def)
    with idx(1,2) fst snd show ?thesis
      unfolding nl_def [symmetric] by simp
  qed
  with t show ?thesis by blast
qed

text \<open>A concrete instance of the theorem.\<close>

theorem neighbor_list_scores_determined_witness:
  "numpy_ok numpy_ref \<and> (0::nat) < 2 \<and> (2::nat) < length [[1, 0], [1, 0], [0, 1::real]]
   \<and> similarity_loop numpy_ref 2 2 [[1, 0], [1, 0], [0, 1]] =
       Inr [Some [(1, 1), (2, 0)], Some [(0, 1), (2, 0)], Some [(1, 0), (0, 0)]]
   \<and> map snd [(1::nat, 1::real), (2, 0)] =
       map (\<lambda>v. py_round v 4)
         (take 2 (rev (sort (others (similarity_row [[1, 0], [1, 0], [0, 1]] 0) 0))))"
  using neighbor_list_scores_determined [OF numpy_ref_ok, of 2 2 "[[1, 0], [1, 0], [0, 1]]"]
    numpy_ref_ok example_loop
  by (simp add: All_less_Suc2 numeral_3_eq_3)

text \<open>
  As stated, C2 fails: for 52 identical unit rows, the reference routines list the
  neighbors of entry 0, all of score 1, by descending index.
\<close>

theorem neighbor_list_scores_determined_counterexample:
  "numpy_ok numpy_ref
   \<and> similarity_row (replicate 52 [1]) 0 = (replicate 52 1)
   \<and> top_similar numpy_ref TOP_N_SIMILAR (replicate 52 1) 0 =
       Inr [(51, 1), (50, 1), (49, 1), (48, 1), (47, 1), (46, 1), (45, 1), (44, 1), (43, 1), (42, 1), (41, 1), (40, 1), (39, 1), (38, 1), (37, 1), (36, 1), (35, 1), (34, 1), (33, 1), (32, 1), (31, 1), (30, 1), (29, 1), (28, 1), (27, 1), (26, 1), (25, 1), (24, 1), (23, 1), (22, 1), (21, 1), (20, 1), (19, 1), (18, 1), (17, 1), (16, 1), (15, 1), (14, 1), (13, 1), (12, 1), (11, 1), (10, 1), (9, 1), (8, 1), (7, 1), (6, 1), (5, 1), (4, 1), (3, 1), (2, 1)]"
proof -
  have row: "similarity_row (replicate 52 [1]) 0 = replicate 52 1"
    by (simp add: similarity_row_def dot_def normalize_row_def l2_norm_def)
  have "top_similar numpy_ref TOP_N_SIMILAR (replicate 52 1) 0 =
       Inr [(51, 1), (50, 1), (49, 1), (48, 1), (47, 1), (46, 1), (45, 1), (44, 1), (43, 1), (42, 1), (41, 1), (40, 1), (39, 1), (38, 1), (37, 1), (36, 1), (35, 1), (34, 1), (33, 1), (32, 1), (31, 1), (30, 1), (29, 1), (28, 1), (27, 1), (26, 1), (25, 1), (24, 1), (23, 1), (22, 1), (21, 1), (20, 1), (19, 1), (18, 1), (17, 1), (16, 1), (15, 1), (14, 1), (13, 1), (12, 1), (11, 1), (10, 1), (9, 1), (8, 1), (7, 1), (6, 1), (5, 1), (4, 1), (3, 1), (2, 1)]"
    by (simp add: eval_defs TOP_N_SIMILAR_def upt_conv_Cons replicate_numeral_Cons)
  with row numpy_ref_ok show ?thesis by (intro conjI)
qed

section \<open>Range of the emitted scores\<close>



section \<open>No entry is its own neighbor\<close>

text \<open>
  Claim C4.  The neighbor list that the loop stores for entry \<open>i\<close> never contains \<open>i\<close>,
  for every matrix (zero rows included), every \<open>K\<close> and every pair of library routines;
  and with routines that meet the contracts, a positive batch size and more than \<open>K\<close>
  entries the loop does store a list for every entry.
\<close>

theorem neighbor_list_excludes_self:
  "(\<forall>t i. similarity_loop np K B M = Inr t \<and> i < length M \<longrightarrow>
       (\<exists>nl. t ! i = Some nl \<and> i \<notin> fst ` set nl))
   \<and> (numpy_ok np \<and> 0 < B \<and> K < length M \<longrightarrow> (\<exists>t. similarity_loop np K B M = Inr t))"
proof (intro conjI allI impI)
  fix t i
  assume "similarity_loop np K B M = Inr t \<and> i < length M"
  with similarity_loop_InrD(3) [of np K B M t i]
  obtain nl where "top_similar np K (similarity_row M i) i = Inr nl" "t ! i = Some nl"
    by blast
  with top_similar_no_self [of np K "similarity_row M i" i nl]
  show "\<exists>nl. t ! i = Some nl \<and> i \<notin> fst ` set nl" by blast
next
  assume "numpy_ok np \<and> 0 < B \<and> K < length M"
  with similarity_loop_entries [of np B K M]
  show "\<exists>t. similarity_loop np K B M = Inr t" by blast
qed

text \<open>A concrete instance of the theorem.\<close>

theorem neighbor_list_excludes_self_witness:
  "similarity_loop numpy_ref 2 2 [[0], [1], [1]] =
       Inr [Some [(2, 0), (1, 0)], Some [(2, 1), (0, 0)], Some [(1, 1), (0, 0)]]
   \<and> (0::nat) < length [[0], [1], [1::real]]
   \<and> [Some [(2, 0), (1, 0)], Some [(2, 1), (0, 0)], Some [(1::nat, 1::real), (0, 0)]] ! 0 =
       Some [(2, 0), (1, 0)]
   \<and> (0::nat) \<notin> fst ` set [(2, 0::real), (1, 0)]
   \<and> numpy_ok numpy_ref \<and> (0::nat) < 2 \<and> (2::nat) < length [[0], [1], [1::real]]"
  using neighbor_list_excludes_self [of numpy_ref 2 2 "[[0], [1], [1]]"] numpy_ref_ok
    example_loop_zero_row
  by simp

section \<open>Scores are non-increasing\<close>

text \<open>
  Claim C5.  With routines that meet the numpy contracts, the scores of every neighbor
  list in the returned table are non-increasing from first to last.
\<close>

theorem neighbor_list_scores_descending:
  assumes "numpy_ok np"
  shows "(\<forall>t i. similarity_loop np K B M = Inr t \<and> i < length M \<longrightarrow>
            (\<exists>nl. t ! i = Some nl \<and> sorted_wrt (\<lambda>a b. b \<le> a) (map snd nl)))
       \<and> (0 < B \<and> K < length M \<longrightarrow> (\<exists>t. similarity_loop np K B M = Inr t))"
proof (intro conjI allI impI)
  fix t i
  assume "similarity_loop np K B M = Inr t \<and> i < length M"
  then have "similarity_loop np K B M = Inr t" and "i < length M"
    by (rule conjunct1, rule conjunct2)
  from entries_scores [OF assms this] sorted_desc_rounded
  show "\<exists>nl. t ! i = Some nl \<and> sorted_wrt (\<lambda>a b. b \<le> a) (map snd nl)"
    by auto
next
  assume "0 < B \<and> K < length M"
  then have "0 < B" and "K < length M"
    by (rule conjunct1, rule conjunct2)
  with assms show "\<exists>t. similarity_loop np K B M = Inr t"
    by (rule similarity_loop_succeeds)
qed

text \<open>A concrete instance of the theorem.\<close>

theorem neighbor_list_scores_descending_witness:
  "numpy_ok numpy_ref
   \<and> similarity_loop numpy_ref 2 2 [[1, 0], [1, 0], [0, 1]] =
       Inr [Some [(1, 1), (2, 0)], Some [(0, 1), (2, 0)], Some [(1, 0), (0, 0)]]
   \<and> (0::nat) < length [[1, 0], [1, 0], [0, 1::real]]
   \<and> sorted_wrt (\<lambda>a b. b \<le> a) (map snd [(1::nat, 1::real), (2, 0)])
   \<and> (0::nat) < 2 \<and> (2::nat) < length [[1, 0], [1, 0], [0, 1::real]]"
  using neighbor_list_scores_descending [OF numpy_ref_ok, of 2 2 "[[1, 0], [1, 0], [0, 1]]"]
    numpy_ref_ok example_loop
  by simp

section \<open>Batch size\<close>

text \<open>
  Claim C6.  The batch size does not affect the result: any two positive batch sizes (so
  \<open>1\<close> and \<open>N\<close>) give the same table or the same failure, for the loop and for the whole
  computation, and that result is the one of the computation without batches, which
  stores the list of entry \<open>i\<close> under index \<open>i\<close>.
\<close>

theorem batch_size_irrelevant:
  assumes "0 < B" and "0 < B'"
  shows "similarity_loop np K B M = similarity_loop np K B' M
       \<and> precompute np analyzer K B docs = precompute np analyzer K B' docs
       \<and> similarity_loop np K B M = unbatched np K M [0..<length M] (replicate (length M) None)"
  using assms by (simp add: similarity_loop_unbatched precompute_def split: sum.splits)

text \<open>A concrete instance of the theorem.\<close>

theorem batch_size_irrelevant_witness:
  "(0::nat) < 1 \<and> (0::nat) < 3
   \<and> similarity_loop numpy_ref 2 1 [[1, 0], [1, 0], [0, 1]] =
       similarity_loop numpy_ref 2 3 [[1, 0], [1, 0], [0, 1]]
   \<and> similarity_loop numpy_ref 2 1 [[1, 0], [1, 0], [0, 1]] =
       Inr [Some [(1, 1), (2, 0)], Some [(0, 1), (2, 0)], Some [(1, 0), (0, 0)]]"
  using batch_size_irrelevant [of 1 3 numpy_ref 2 "[[1, 0], [1, 0], [0, 1]]" whole_token "[]"]
    example_loop_all
  by simp

section \<open>TF-IDF rows\<close>

text \<open>
  Claim C8, as amended.  Each row of the matrix is the L2-normalized row of the weights
  \<open>TF(i, j) \<times> (ln((1 + N) / (1 + df(j))) + 1)\<close>; a row of a document with at least one
  token has norm 1, a row of a document without tokens is all zero (norm 0, not 1); in
  both cases the cosine similarity of two rows is their dot product.
\<close>

theorem tfidf_rows:
  "((\<exists>d\<in>set raw. analyzer d \<noteq> []) \<longrightarrow> (\<exists>M. fit_transform analyzer raw = Inr M))
   \<and> (\<forall>M i j. fit_transform analyzer raw = Inr M \<and> i < length raw \<and> j < length raw \<longrightarrow>
         M ! i =
           normalize_row
             (map (\<lambda>t. real (count_list (analyzer (raw ! i)) t) *
                       (ln ((1 + real (length raw)) /
                            (1 + real (length (filter (\<lambda>d. t \<in> set d) (map analyzer raw))))) + 1))
                  (vocabulary (map analyzer raw)))
       \<and> (analyzer (raw ! i) \<noteq> [] \<longrightarrow> l2_norm (M ! i) = 1)
       \<and> (analyzer (raw ! i) = [] \<longrightarrow> (\<forall>a\<in>set (M ! i). a = 0))
       \<and> cosine_similarity M M ! i ! j = dot (M ! i) (M ! j))"
proof (rule conjI; intro allI impI)
  assume "\<exists>d\<in>set raw. analyzer d \<noteq> []"
  from fit_transform_Inr [OF this] show "\<exists>M. fit_transform analyzer raw = Inr M" ..
next
  fix M i j
  assume a: "fit_transform analyzer raw = Inr M \<and> i < length raw \<and> j < length raw"
  from a have ft: "fit_transform analyzer raw = Inr M" by (rule conjunct1)
  from a have i: "i < length raw" by (rule conjunct1 [OF conjunct2])
  from a have j: "j < length raw" by (rule conjunct2 [OF conjunct2])
  from tfidf_rows_aux [OF ft i j]
  show "M ! i =
           normalize_row
             (map (\<lambda>t. real (count_list (analyzer (raw ! i)) t) *
                       (ln ((1 + real (length raw)) /
                            (1 + real (length (filter (\<lambda>d. t \<in> set d) (map analyzer raw))))) + 1))
                  (vocabulary (map analyzer raw)))
       \<and> (analyzer (raw ! i) \<noteq> [] \<longrightarrow> l2_norm (M ! i) = 1)
       \<and> (analyzer (raw ! i) = [] \<longrightarrow> (\<forall>a\<in>set (M ! i). a = 0))
       \<and> cosine_similarity M M ! i ! j = dot (M ! i) (M ! j)" .
qed

text \<open>A concrete instance of the theorem.\<close>

theorem tfidf_rows_witness:
  "''aa'' \<in> set ['''', ''aa'', ''aa''] \<and> whole_token ''aa'' \<noteq> []
   \<and> fit_transform whole_token ['''', ''aa'', ''aa''] = Inr [[0], [1], [1]]
   \<and> (1::nat) < length ['''', ''aa'', ''aa''] \<and> (2::nat) < length ['''', ''aa'', ''aa'']
   \<and> whole_token (['''', ''aa'', ''aa''] ! 1) \<noteq> []
   \<and> l2_norm ([[0], [1], [1]] ! 1) = 1
   \<and> whole_token (['''', ''aa'', ''aa''] ! 0) = []
   \<and> [[0], [1], [1::real]] ! 0 = [0]
   \<and> cosine_similarity [[0], [1], [1]] [[0], [1], [1]] ! 1 ! 2 = dot [1] [1]"
  using tfidf_rows [of "['''', ''aa'', ''aa'']" whole_token, THEN conjunct2, rule_format,
      of "[[0], [1], [1]]" 1 2, THEN conjunct2]
    tfidf_rows [of "['''', ''aa'', ''aa'']" whole_token, THEN conjunct2, rule_format,
      of "[[0], [1], [1]]" 0 1, THEN conjunct2]
    example_corpus
  by (simp add: whole_token_def)

text \<open>
  As stated, C8 fails: the row of a document without tokens has norm 0, not 1.
\<close>

theorem tfidf_rows_counterexample:
  "fit_transform whole_token ['''', ''aa'', ''aa''] = Inr [[0], [1], [1]]
   \<and> l2_norm ([[0], [1], [1]] ! 0) = 0
   \<and> l2_norm ([[0], [1], [1]] ! 0) \<noteq> 1"
  using example_corpus by (simp add: l2_norm_def)

section \<open>Documents without tokens\<close>

text \<open>
  Claim C9, as amended.  When the corpus has more than \<open>K\<close> documents and at least one
  of them has a token, a document without tokens yields an all-zero row, its similarity
  to every entry is 0, the computation returns a table, and that entry's neighbor list
  has \<open>K\<close> entries, all of score 0.
\<close>

theorem empty_document_neighbors:
  assumes "numpy_ok np" and "0 < B" and "K < length raw" and "i < length raw"
    and "analyzer (raw ! i) = []" and "\<exists>d\<in>set raw. analyzer d \<noteq> []"
  shows "\<exists>M t nl. fit_transform analyzer raw = Inr M \<and> (\<forall>a\<in>set (M ! i). a = 0) \<and>
           (\<forall>s\<in>set (similarity_row M i). s = 0) \<and>
           precompute np analyzer K B raw = Inr t \<and> t ! i = Some nl \<and> length nl = K \<and>
           (\<forall>(j, s)\<in>set nl. s = 0)"
proof -
  define docs where "docs = map analyzer raw"
  define M where "M = map (tfidf_row docs) docs"
  from fit_transform_Inr [OF assms(6)] have ft: "fit_transform analyzer raw = Inr M"
    by (simp add: M_def docs_def)
  have len: "length M = length raw" by (simp add: M_def docs_def)
  from assms(4,5) have Mi: "M ! i = tfidf_row docs []"
    by (simp add: M_def docs_def)
  then have zero: "\<forall>a\<in>set (M ! i). a = 0"
    using tfidf_row_empty [of docs] by simp
  then have row: "\<forall>s\<in>set (similarity_row M i). s = 0"
    by (auto simp: similarity_row_def normalize_row_zero dot_zero_left)
  from similarity_loop_entries [OF assms(1,2), of K M] assms(3) len
  obtain t where t: "similarity_loop np K B M = Inr t" by auto
  from entries_scores [OF assms(1) t, of i] assms(4) len
  obtain nl where nl: "t ! i = Some nl" "length nl = K"
    "map snd nl = map (\<lambda>v. py_round v 4) (take K (rev (sort (others (similarity_row M i) i))))"
    by auto
  have "s = 0" if "(j, s) \<in> set nl" for j s
    using emitted_in_set [OF nl(3) that] row by auto
  with ft zero row t nl(1,2) show ?thesis
    by (auto simp: precompute_def)
qed

text \<open>A concrete instance of the theorem.\<close>

theorem empty_document_neighbors_witness:
  "numpy_ok numpy_ref \<and> (0::nat) < 2 \<and> (2::nat) < length ['''', ''aa'', ''aa'']
   \<and> (0::nat) < length ['''', ''aa'', ''aa'']
   \<and> whole_token (['''', ''aa'', ''aa''] ! 0) = []
   \<and> ''aa'' \<in> set ['''', ''aa'', ''aa''] \<and> whole_token ''aa'' \<noteq> []
   \<and> fit_transform whole_token ['''', ''aa'', ''aa''] = Inr [[0], [1], [1]]
   \<and> similarity_row [[0], [1], [1]] 0 = [0, 0, 0]
   \<and> precompute numpy_ref whole_token 2 2 ['''', ''aa'', ''aa''] =
       Inr [Some [(2, 0), (1, 0)], Some [(2, 1), (0, 0)], Some [(1, 1), (0, 0)]]"
  using empty_document_neighbors [OF numpy_ref_ok, of 2 2 "['''', ''aa'', ''aa'']" 0 whole_token]
    numpy_ref_ok example_corpus example_precompute
  by (simp add: whole_token_def similarity_row_def dot_def normalize_row_def l2_norm_def)

text \<open>
  As stated, C9 fails: with two documents, one of them empty, and the program's
  \<open>K = 50\<close> the run ends in \<open>ValueError\<close> and the empty document gets no list.
\<close>

theorem empty_document_neighbors_counterexample:
  "(1::nat) < length ['''', ''aa''] \<and> whole_token (['''', ''aa''] ! 0) = []
   \<and> precompute numpy_ref whole_token TOP_N_SIMILAR BATCH_SIZE ['''', ''aa''] = Inl ValueError"
proof -
  have "\<exists>d\<in>set ['''', ''aa'']. whole_token d \<noteq> []"
    by (simp add: whole_token_def)
  from fit_transform_Inr [OF this] obtain M where
    M: "fit_transform whole_token ['''', ''aa''] = Inr M" "length M = 2"
    by simp
  from M(2) have "similarity_loop numpy_ref TOP_N_SIMILAR BATCH_SIZE M = Inl ValueError"
    by (simp add: similarity_loop_small numpy_ref_ok TOP_N_SIMILAR_def)
  with M(1) show ?thesis by (simp add: precompute_def whole_token_def)
qed

section \<open>Bucket thresholds\<close>

text \<open>
  Claim C10.  The feature document of a row is the seven parts joined by blanks, and its
  fifth and sixth parts are fixed by these thresholds: a runtime above 120 gives
  \<open>long\<close>, a runtime above 90 and at most 120 gives \<open>medium\<close>, a runtime of at most 90
  gives \<open>short\<close>; a rating of at least 7.5 gives \<open>highly_rated\<close>, a rating of at least
  6.5 and below 7.5 gives \<open>moderately_rated\<close>, a rating below 6.5 gives
  \<open>average_rated\<close>; a missing runtime or rating contributes the empty string.
\<close>

theorem content_feature_buckets:
  "create_content_features r =
     str_or_empty (genres r) @ '' '' @ str_or_empty (directors r) @ '' '' @
     str_or_empty (writers r) @ '' '' @ str_or_empty (startYear r) @ '' '' @
     runtime_bucket (runtimeMinutes r) @ '' '' @ rating_bucket (averageRating r) @ '' '' @
     str_or_empty (tags r)
   \<and> (\<forall>m. runtimeMinutes r = Some m \<longrightarrow>
          (120 < m \<longrightarrow> runtime_bucket (runtimeMinutes r) = ''long'') \<and>
          (90 < m \<and> m \<le> 120 \<longrightarrow> runtime_bucket (runtimeMinutes r) = ''medium'') \<and>
          (m \<le> 90 \<longrightarrow> runtime_bucket (runtimeMinutes r) = ''short''))
   \<and> (\<forall>a. averageRating r = Some a \<longrightarrow>
          (7.5 \<le> a \<longrightarrow> rating_bucket (averageRating r) = ''highly_rated'') \<and>
          (6.5 \<le> a \<and> a < 7.5 \<longrightarrow> rating_bucket (averageRating r) = ''moderately_rated'') \<and>
          (a < 6.5 \<longrightarrow> rating_bucket (averageRating r) = ''average_rated''))
   \<and> (runtimeMinutes r = None \<longrightarrow> runtime_bucket (runtimeMinutes r) = '''')
   \<and> (averageRating r = None \<longrightarrow> rating_bucket (averageRating r) = '''')"
  by (simp add: create_content_features_def runtime_bucket_def rating_bucket_def)

theorem content_feature_buckets_witness:
  "runtimeMinutes \<lparr>directors = Some ''nm1'', writers = None, genres = Some ''Drama'',
       startYear = Some ''1999'', tags = None, runtimeMinutes = Some 130,
       averageRating = Some 7\<rparr> = Some 130 \<and> (120::real) < 130
   \<and> averageRating \<lparr>directors = Some ''nm1'', writers = None, genres = Some ''Drama'',
       startYear = Some ''1999'', tags = None, runtimeMinutes = Some 130,
       averageRating = Some 7\<rparr> = Some 7 \<and> (6.5::real) \<le> 7 \<and> (7::real) < 7.5
   \<and> create_content_features
      \<lparr>directors = Some ''nm1'', writers = None, genres = Some ''Drama'',
       startYear = Some ''1999'', tags = None, runtimeMinutes = Some 130,
       averageRating = Some 7\<rparr> = ''Drama nm1  1999 long moderately_rated ''"
  using content_feature_buckets [of "\<lparr>directors = Some ''nm1'', writers = None,
       genres = Some ''Drama'', startYear = Some ''1999'', tags = None,
       runtimeMinutes = Some 130, averageRating = Some 7\<rparr>"]
  by (simp add: str_or_empty_def)

end
